theory Spec2Isabelle
  imports Complex_Main "HOL-Library.Char_ord" "HOL-Library.List_Lexorder"
begin

section \<open>The cart store \<^verbatim>\<open>useCartStore\<close>\<close>

text \<open>
  The store is a zustand store whose state holds the ordered \<^verbatim>\<open>items\<close> array and the
  \<^verbatim>\<open>isOpen\<close> flag (\<^verbatim>\<open>interface CartState\<close>), and four computed properties. Every
  action is first modelled on the data, as the function from the \<^verbatim>\<open>CartState\<close> before
  the call to the one after it that the action hands to \<^verbatim>\<open>set\<close>; the state object with
  its computed properties, zustand's \<^verbatim>\<open>set\<close> and the persistence follow.

  JavaScript numbers are modelled as exact numbers: the integer-valued fields (\<^verbatim>\<open>productId\<close>,
  \<^verbatim>\<open>variationId\<close>, \<^verbatim>\<open>quantity\<close>, \<^verbatim>\<open>maxQuantity\<close>) as \<^typ>\<open>int\<close>, the prices as
  \<^typ>\<open>rat\<close>; rounding of doubles, \<^verbatim>\<open>NaN\<close> and the infinities are outside the model.
  An optional field (\<^verbatim>\<open>f?: T\<close>) is an \<^typ>\<open>'a option\<close>, \<^verbatim>\<open>undefined\<close> being \<^term>\<open>None\<close>.
  A \<^verbatim>\<open>Record<string, string>\<close> is the list of its entries in the order in which
  \<^verbatim>\<open>Object.entries\<close> enumerates them.
\<close>

subsection \<open>Data\<close>

text \<open>\<^verbatim>\<open>Omit<CartItem, 'id'>\<close>, the argument of \<^verbatim>\<open>addItem\<close>.\<close>

record CartItemInput =
  productId :: int
  variationId :: "int option"
  name :: string
  slug :: string
  price :: rat
  regularPrice :: "rat option"
  quantity :: int
  image' :: string
  attributes :: "(string \<times> string) list option"
  maxQuantity :: "int option"

text \<open>\<^verbatim>\<open>CartItem\<close>: the input fields and the derived \<^verbatim>\<open>id\<close>.\<close>

record CartItem = CartItemInput +
  id' :: string

record CartState =
  items :: "CartItem list"
  isOpen :: bool

text \<open>The object \<^verbatim>\<open>{ ...item, id }\<close>.\<close>

definition with_id :: "CartItemInput \<Rightarrow> string \<Rightarrow> CartItem" where
  "with_id item i =
     \<lparr>productId = productId item, variationId = variationId item, name = name item,
      slug = slug item, price = price item, regularPrice = regularPrice item,
      quantity = quantity item, image' = image' item, attributes = attributes item,
      maxQuantity = maxQuantity item, id' = i\<rparr>"

subsection \<open>JavaScript primitives used by the store\<close>

text \<open>\<^verbatim>\<open>String(n)\<close> and \<^verbatim>\<open>`${n}`\<close> on an integer: its decimal numeral, with a leading
  minus sign when negative.\<close>

definition digit :: "nat \<Rightarrow> char" where
  "digit d = ''0123456789'' ! d"

fun digits :: "nat \<Rightarrow> string" where
  "digits n = (if n < 10 then [digit n] else digits (n div 10) @ [digit (n mod 10)])"

declare digits.simps [simp del]

definition String_of :: "int \<Rightarrow> string" where
  "String_of n = (if n < 0 then ''-'' @ digits (nat (- n)) else digits (nat n))"

text \<open>Truthiness of a \<^verbatim>\<open>number | undefined\<close>: \<^verbatim>\<open>undefined\<close> and \<^verbatim>\<open>0\<close> are falsy.\<close>

definition truthy :: "int option \<Rightarrow> bool" where
  "truthy v = (case v of None \<Rightarrow> False | Some n \<Rightarrow> n \<noteq> 0)"

text \<open>\<^verbatim>\<open>Array.prototype.join\<close> on strings.\<close>

fun join :: "string \<Rightarrow> string list \<Rightarrow> string" where
  "join sep [] = []"
| "join sep [x] = x"
| "join sep (x # y # ys) = x @ sep @ join sep (y # ys)"

text \<open>\<^verbatim>\<open>Array.prototype.sort(compareFn)\<close>: a stable sort; \<^verbatim>\<open>compareFn(a, b) \<le> 0\<close> keeps
  \<^verbatim>\<open>a\<close> before \<^verbatim>\<open>b\<close>. Insertion from the right, each element going in front of the
  first element it does not exceed, is such a sort.\<close>

fun insert_sorted :: "('a \<Rightarrow> 'a \<Rightarrow> int) \<Rightarrow> 'a \<Rightarrow> 'a list \<Rightarrow> 'a list" where
  "insert_sorted cmp x [] = [x]"
| "insert_sorted cmp x (y # ys) =
     (if cmp x y \<le> 0 then x # y # ys else y # insert_sorted cmp x ys)"

definition array_sort :: "('a \<Rightarrow> 'a \<Rightarrow> int) \<Rightarrow> 'a list \<Rightarrow> 'a list" where
  "array_sort cmp xs = foldr (insert_sorted cmp) xs []"

text \<open>\<^verbatim>\<open>Array.prototype.findIndex\<close>: the first index whose element satisfies the
  predicate, \<^verbatim>\<open>-1\<close> when there is none.\<close>

fun findIndex :: "('a \<Rightarrow> bool) \<Rightarrow> 'a list \<Rightarrow> int" where
  "findIndex P [] = - 1"
| "findIndex P (x # xs) =
     (if P x then 0 else (let r = findIndex P xs in if r = - 1 then - 1 else r + 1))"

subsection \<open>\<^verbatim>\<open>generateCartItemId\<close>\<close>

text \<open>
  \<^verbatim>\<open>String.prototype.localeCompare\<close> is the host's collation and not part of the
  repository: it is the parameter \<open>localeCompare\<close> of the model, \<open>localeCompare a b\<close>
  being the number \<^verbatim>\<open>a.localeCompare(b)\<close>. The comparison function handed to
  \<^verbatim>\<open>sort\<close> is \<^verbatim>\<open>([a], [b]) => a.localeCompare(b)\<close>.
\<close>

definition compare_keys ::
  "(string \<Rightarrow> string \<Rightarrow> int) \<Rightarrow> string \<times> string \<Rightarrow> string \<times> string \<Rightarrow> int" where
  "compare_keys localeCompare = (\<lambda>(a, _) (b, _). localeCompare a b)"

definition generateCartItemId ::
  "(string \<Rightarrow> string \<Rightarrow> int) \<Rightarrow> int \<Rightarrow> int option \<Rightarrow> (string \<times> string) list option \<Rightarrow> string" where
  "generateCartItemId localeCompare productId' variationId' attributes' =
     (let id0 = String_of productId';
          id1 = (case variationId' of
                   Some v \<Rightarrow> if truthy variationId' then id0 @ ''-'' @ String_of v else id0
                 | None \<Rightarrow> id0)
      in case attributes' of
           None \<Rightarrow> id1
         | Some attrs \<Rightarrow>
             if length attrs > 0
             then let attrString =
                        join ''-'' (map (\<lambda>(key, value). key @ '':'' @ value)
                          (array_sort (compare_keys localeCompare) attrs))
                  in id1 @ ''-'' @ attrString
             else id1)"

subsection \<open>\<^verbatim>\<open>calculateTotals\<close>\<close>

record Totals =
  total :: rat
  subtotal :: rat
  itemCount :: int

definition calculateTotals :: "CartItem list \<Rightarrow> Totals" where
  "calculateTotals its =
     foldl (\<lambda>acc item.
              \<lparr>total = total acc + price item * of_int (quantity item),
               subtotal = subtotal acc + price item * of_int (quantity item),
               itemCount = itemCount acc + quantity item\<rparr>)
           \<lparr>total = 0, subtotal = 0, itemCount = 0\<rparr> its"

subsection \<open>The actions\<close>

definition initial :: CartState where
  "initial = \<lparr>items = [], isOpen = False\<rparr>"

text \<open>\<^verbatim>\<open>maxQty ? Math.min(q, maxQty) : q\<close>.\<close>

definition clamp_to :: "int option \<Rightarrow> int \<Rightarrow> int" where
  "clamp_to maxQty q = (case maxQty of
       Some m \<Rightarrow> if truthy maxQty then min q m else q
     | None \<Rightarrow> q)"

definition addItem :: "(string \<Rightarrow> string \<Rightarrow> int) \<Rightarrow> CartItemInput \<Rightarrow> CartState \<Rightarrow> CartState" where
  "addItem localeCompare item state =
     (let i = generateCartItemId localeCompare (productId item) (variationId item) (attributes item);
          existingItemIndex = findIndex (\<lambda>it. id' it = i) (items state)
      in if existingItemIndex \<noteq> - 1
         then let existingItem = items state ! nat existingItemIndex;
                  newQuantity = quantity existingItem + quantity item;
                  maxQty = maxQuantity existingItem;
                  finalQuantity = clamp_to maxQty newQuantity;
                  updatedItems = (items state)[nat existingItemIndex := existingItem\<lparr>quantity := finalQuantity\<rparr>]
              in state\<lparr>items := updatedItems, isOpen := True\<rparr>
         else state\<lparr>items := items state @ [with_id item i], isOpen := True\<rparr>)"

definition removeItem :: "string \<Rightarrow> CartState \<Rightarrow> CartState" where
  "removeItem i state = state\<lparr>items := filter (\<lambda>item. id' item \<noteq> i) (items state)\<rparr>"

definition updateQuantity :: "string \<Rightarrow> int \<Rightarrow> CartState \<Rightarrow> CartState" where
  "updateQuantity i q state =
     (if q \<le> 0
      then state\<lparr>items := filter (\<lambda>item. id' item \<noteq> i) (items state)\<rparr>
      else state\<lparr>items := map (\<lambda>item.
             if id' item \<noteq> i then item
             else let maxQty = maxQuantity item;
                      finalQuantity = clamp_to maxQty q
                  in item\<lparr>quantity := finalQuantity\<rparr>) (items state)\<rparr>)"

definition clearCart :: "CartState \<Rightarrow> CartState" where
  "clearCart state = state\<lparr>items := []\<rparr>"

definition openCart :: "CartState \<Rightarrow> CartState" where
  "openCart state = state\<lparr>isOpen := True\<rparr>"

definition closeCart :: "CartState \<Rightarrow> CartState" where
  "closeCart state = state\<lparr>isOpen := False\<rparr>"

definition toggleCart :: "CartState \<Rightarrow> CartState" where
  "toggleCart state = state\<lparr>isOpen := \<not> isOpen state\<rparr>"

subsection \<open>Sequences of actions\<close>

text \<open>The four mutations of the items, and the state reached from the empty cart by a
  sequence of them.\<close>

datatype Action = AddItem CartItemInput | RemoveItem string | UpdateQuantity string int | ClearCart

fun apply_action :: "(string \<Rightarrow> string \<Rightarrow> int) \<Rightarrow> CartState \<Rightarrow> Action \<Rightarrow> CartState" where
  "apply_action localeCompare s (AddItem item) = addItem localeCompare item s"
| "apply_action localeCompare s (RemoveItem i) = removeItem i s"
| "apply_action localeCompare s (UpdateQuantity i q) = updateQuantity i q s"
| "apply_action localeCompare s ClearCart = clearCart s"

definition run :: "(string \<Rightarrow> string \<Rightarrow> int) \<Rightarrow> Action list \<Rightarrow> CartState" where
  "run localeCompare acts = foldl (apply_action localeCompare) initial acts"

text \<open>An item respects its stock limit when its \<^verbatim>\<open>maxQuantity\<close> is \<^verbatim>\<open>undefined\<close> or
  \<^verbatim>\<open>0\<close> (both falsy, read by the store as "no limit") or bounds its quantity.\<close>

definition within_stock :: "'a CartItemInput_scheme \<Rightarrow> bool" where
  "within_stock it =
     (case maxQuantity it of None \<Rightarrow> True | Some m \<Rightarrow> if m = 0 then True else quantity it \<le> m)"

text \<open>The ceiling as the specification words it: \<^verbatim>\<open>quantity \<le> maxQuantity\<close> whenever
  \<^verbatim>\<open>maxQuantity\<close> is defined.\<close>

definition stock_ceiling :: "'a CartItemInput_scheme \<Rightarrow> bool" where
  "stock_ceiling it = (case maxQuantity it of None \<Rightarrow> True | Some m \<Rightarrow> quantity it \<le> m)"

text \<open>An action is admissible when the candidate of an \<^verbatim>\<open>addItem\<close> respects its own
  stock limit.\<close>

fun admissible :: "Action \<Rightarrow> bool" where
  "admissible (AddItem item) = within_stock item"
| "admissible (RemoveItem i) = True"
| "admissible (UpdateQuantity i q) = True"
| "admissible ClearCart = True"

subsection \<open>The state object and zustand's \<^verbatim>\<open>set\<close>\<close>

text \<open>
  The object that the initializer returns holds, beside \<^verbatim>\<open>items\<close>, \<^verbatim>\<open>isOpen\<close> and the
  actions, the accessor properties \<^verbatim>\<open>get total()\<close>, \<^verbatim>\<open>get subtotal()\<close>,
  \<^verbatim>\<open>get itemCount()\<close> and \<^verbatim>\<open>get isEmpty()\<close>, whose bodies read \<^verbatim>\<open>get().items\<close>.
  zustand's \<^verbatim>\<open>set\<close> replaces the state by \<^verbatim>\<open>Object.assign({}, state, partial)\<close>: every
  own property of the old state is read, an accessor by running its getter while
  \<^verbatim>\<open>get()\<close> still returns the old state, and the result is stored as a plain value. A
  computed property of a state object is therefore either still the accessor of the
  initializer or a plain value.
\<close>

datatype 'a property = Accessor | Value 'a

record CartStore =
  state :: CartState
  prop_total :: "rat property"
  prop_subtotal :: "rat property"
  prop_itemCount :: "int property"
  prop_isEmpty :: "bool property"

text \<open>The object returned by the initializer.\<close>

definition configResult :: CartStore where
  "configResult = \<lparr>state = initial, prop_total = Accessor, prop_subtotal = Accessor,
     prop_itemCount = Accessor, prop_isEmpty = Accessor\<rparr>"

text \<open>The bodies of the four getters; \<open>g\<close> is what \<^verbatim>\<open>get()\<close> returns.\<close>

definition getter_total :: "CartStore \<Rightarrow> rat" where
  "getter_total g = total (calculateTotals (items (state g)))"

definition getter_subtotal :: "CartStore \<Rightarrow> rat" where
  "getter_subtotal g = subtotal (calculateTotals (items (state g)))"

definition getter_itemCount :: "CartStore \<Rightarrow> int" where
  "getter_itemCount g = itemCount (calculateTotals (items (state g)))"

definition getter_isEmpty :: "CartStore \<Rightarrow> bool" where
  "getter_isEmpty g = (length (items (state g)) = 0)"

text \<open>Reading a computed property while \<^verbatim>\<open>get()\<close> returns \<open>g\<close>.\<close>

definition read_property :: "CartStore \<Rightarrow> (CartStore \<Rightarrow> 'a) \<Rightarrow> 'a property \<Rightarrow> 'a" where
  "read_property g body p = (case p of Accessor \<Rightarrow> body g | Value v \<Rightarrow> v)"

text \<open>\<^verbatim>\<open>useCartStore.getState().total\<close> and its siblings: the property of the current
  state object, read while \<^verbatim>\<open>get()\<close> returns that object.\<close>

definition store_total :: "CartStore \<Rightarrow> rat" where
  "store_total st = read_property st getter_total (prop_total st)"

definition store_subtotal :: "CartStore \<Rightarrow> rat" where
  "store_subtotal st = read_property st getter_subtotal (prop_subtotal st)"

definition store_itemCount :: "CartStore \<Rightarrow> int" where
  "store_itemCount st = read_property st getter_itemCount (prop_itemCount st)"

definition store_isEmpty :: "CartStore \<Rightarrow> bool" where
  "store_isEmpty st = read_property st getter_isEmpty (prop_isEmpty st)"

text \<open>\<^verbatim>\<open>set(partial)\<close>: the data are those the action computes from the old ones, the
  computed properties are copied as plain values read from the old state.\<close>

definition setState :: "(CartState \<Rightarrow> CartState) \<Rightarrow> CartStore \<Rightarrow> CartStore" where
  "setState partial st =
     \<lparr>state = partial (state st),
      prop_total = Value (read_property st getter_total (prop_total st)),
      prop_subtotal = Value (read_property st getter_subtotal (prop_subtotal st)),
      prop_itemCount = Value (read_property st getter_itemCount (prop_itemCount st)),
      prop_isEmpty = Value (read_property st getter_isEmpty (prop_isEmpty st))\<rparr>"

definition store_apply :: "(string \<Rightarrow> string \<Rightarrow> int) \<Rightarrow> CartStore \<Rightarrow> Action \<Rightarrow> CartStore" where
  "store_apply localeCompare st act = setState (\<lambda>s. apply_action localeCompare s act) st"

text \<open>The selector hooks select \<^verbatim>\<open>state.items\<close> and call \<^verbatim>\<open>calculateTotals\<close> on it.\<close>

definition useCartTotal :: "CartStore \<Rightarrow> rat" where
  "useCartTotal st = total (calculateTotals (items (state st)))"

definition useCartItemCount :: "CartStore \<Rightarrow> int" where
  "useCartItemCount st = itemCount (calculateTotals (items (state st)))"

subsection \<open>Persistence\<close>

text \<open>
  The store is wrapped in zustand's \<^verbatim>\<open>persist\<close> with the options \<^verbatim>\<open>name: 'cart-storage'\<close>,
  \<^verbatim>\<open>version: 1\<close>, \<^verbatim>\<open>createJSONStorage(() => localStorage)\<close> and the \<^verbatim>\<open>partialize\<close>
  below. After every \<^verbatim>\<open>set\<close> the middleware writes
  \<^verbatim>\<open>{ state: partialize({ ...get() }), version: 1 }\<close> to the slot.

  Hydration runs once, inside \<^verbatim>\<open>create\<close>, before the store has a state: the slot is
  read and the default merge \<^verbatim>\<open>{ ...currentState, ...persistedState }\<close> is applied to the
  object of the initializer while \<^verbatim>\<open>get()\<close> still returns \<^verbatim>\<open>undefined\<close>. Spreading that
  object runs its getters, \<^verbatim>\<open>get().items\<close> throws a \<^verbatim>\<open>TypeError\<close>, the middleware swallows
  the error, and the store starts from the object of the initializer. The repository
  never calls \<^verbatim>\<open>persist.rehydrate()\<close>.

  The slot is modelled by the \<^verbatim>\<open>state\<close> of the value it holds, \<open>None\<close> when it is empty;
  the JSON text is outside the model.
\<close>

record PersistedState =
  persisted_items :: "CartItem list"

definition partialize :: "CartState \<Rightarrow> PersistedState" where
  "partialize state' = \<lparr>persisted_items = items state'\<rparr>"

text \<open>The slot after a \<^verbatim>\<open>set\<close>.\<close>

definition setItem :: "CartStore \<Rightarrow> PersistedState option" where
  "setItem st = Some (partialize (state st))"

datatype error = TypeError

text \<open>Reading a computed property while \<^verbatim>\<open>get()\<close> returns \<^verbatim>\<open>undefined\<close>.\<close>

definition read_uncreated :: "'a property \<Rightarrow> error + 'a" where
  "read_uncreated p = (case p of Accessor \<Rightarrow> Inl TypeError | Value v \<Rightarrow> Inr v)"

text \<open>\<^verbatim>\<open>{ ...currentState }\<close> inside \<^verbatim>\<open>create\<close>.\<close>

definition spread_uncreated :: "CartStore \<Rightarrow> error + CartStore" where
  "spread_uncreated st =
     (case read_uncreated (prop_total st) of Inl e \<Rightarrow> Inl e | Inr t \<Rightarrow>
      case read_uncreated (prop_subtotal st) of Inl e \<Rightarrow> Inl e | Inr u \<Rightarrow>
      case read_uncreated (prop_itemCount st) of Inl e \<Rightarrow> Inl e | Inr c \<Rightarrow>
      case read_uncreated (prop_isEmpty st) of Inl e \<Rightarrow> Inl e | Inr b \<Rightarrow>
        Inr \<lparr>state = state st, prop_total = Value t, prop_subtotal = Value u,
             prop_itemCount = Value c, prop_isEmpty = Value b\<rparr>)"

text \<open>The default \<^verbatim>\<open>merge\<close>, \<^verbatim>\<open>{ ...currentState, ...persistedState }\<close>, inside \<^verbatim>\<open>create\<close>.\<close>

definition merge_uncreated :: "PersistedState option \<Rightarrow> CartStore \<Rightarrow> error + CartStore" where
  "merge_uncreated persistedState currentState =
     (case spread_uncreated currentState of
        Inl e \<Rightarrow> Inl e
      | Inr c \<Rightarrow> Inr (case persistedState of
                        None \<Rightarrow> c
                      | Some p \<Rightarrow> c\<lparr>state := (state c)\<lparr>items := persisted_items p\<rparr>\<rparr>))"

text \<open>\<^verbatim>\<open>create\<close> with the slot as found: the merged state when the merge returns, the
  object of the initializer when it throws.\<close>

definition create :: "PersistedState option \<Rightarrow> CartStore" where
  "create slot = (case merge_uncreated slot configResult of Inl e \<Rightarrow> configResult | Inr s \<Rightarrow> s)"

text \<open>The store after a page load that finds \<open>slot\<close> and a sequence of actions.\<close>

definition store_run ::
  "(string \<Rightarrow> string \<Rightarrow> int) \<Rightarrow> PersistedState option \<Rightarrow> Action list \<Rightarrow> CartStore" where
  "store_run localeCompare slot acts = foldl (store_apply localeCompare) (create slot) acts"

subsection \<open>Collations\<close>

text \<open>A comparison is a linear order on a set of keys when, on these keys, it is
  total, transitive and separates distinct keys.\<close>

definition linear_on :: "(string \<Rightarrow> string \<Rightarrow> int) \<Rightarrow> string set \<Rightarrow> bool" where
  "linear_on lc K \<longleftrightarrow>
     (\<forall>a \<in> K. \<forall>b \<in> K. lc a b \<le> 0 \<or> lc b a \<le> 0)
   \<and> (\<forall>a \<in> K. \<forall>b \<in> K. \<forall>c \<in> K. lc a b \<le> 0 \<longrightarrow> lc b c \<le> 0 \<longrightarrow> lc a c \<le> 0)
   \<and> (\<forall>a \<in> K. \<forall>b \<in> K. lc a b \<le> 0 \<longrightarrow> lc b a \<le> 0 \<longrightarrow> a = b)"

text \<open>A concrete collation for evaluating examples: comparison of the strings character
  by character.\<close>

definition codeUnitCompare :: "string \<Rightarrow> string \<Rightarrow> int" where
  "codeUnitCompare a b = (if a = b then 0 else if a < b then - 1 else 1)"

text \<open>A comparison agrees with the lexicographic order of the strings on a set of keys.\<close>

definition agrees_lexicographic :: "(string \<Rightarrow> string \<Rightarrow> int) \<Rightarrow> string set \<Rightarrow> bool" where
  "agrees_lexicographic lc K \<longleftrightarrow> (\<forall>a \<in> K. \<forall>b \<in> K. (lc a b \<le> 0) = (a \<le> b))"

definition attribute_keys :: "(string \<times> string) list option \<Rightarrow> string set" where
  "attribute_keys a = (case a of None \<Rightarrow> {} | Some attrs \<Rightarrow> fst ` set attrs)"

text \<open>
  A comparison with two traits of the host's collation. Canonically equivalent strings
  compare as equal, which ECMAScript requires of \<^verbatim>\<open>localeCompare\<close>: here the letter
  e-acute written as one code point (bytes C3 A9) or as \<^verbatim>\<open>e\<close> followed by the combining
  accent (bytes CC 81). And letters are compared before their case, lower case first.
\<close>

fun decompose :: "string \<Rightarrow> string" where
  "decompose (c # d # cs) =
     (if c = CHR 0xC3 \<and> d = CHR 0xA9 then CHR ''e'' # CHR 0xCC # CHR 0x81 # decompose cs
      else c # decompose (d # cs))"
| "decompose cs = cs"

definition lower :: "char \<Rightarrow> char" where
  "lower c = (if CHR ''A'' \<le> c \<and> c \<le> CHR ''Z'' then char_of (of_char c + (32 :: nat)) else c)"

definition hostLikeCompare :: "string \<Rightarrow> string \<Rightarrow> int" where
  "hostLikeCompare a b =
     (let x = decompose a; y = decompose b
      in if x = y then 0
         else if map lower x = map lower y then codeUnitCompare y x
         else codeUnitCompare (map lower x) (map lower y))"

subsection \<open>The reference algorithm \<^verbatim>\<open>deriveId\<close> of the specification\<close>

text \<open>
  Written from the specification's pseudocode, not from the source: the id starts as
  \<^verbatim>\<open>stringOf(productId)\<close>; if \<^verbatim>\<open>variationId\<close> is present, \<^verbatim>\<open>"-" + stringOf(variationId)\<close>
  is appended; if \<^verbatim>\<open>attributes\<close> is non-empty, the pairs \<^verbatim>\<open>key + ":" + value\<close> are built,
  sorted lexicographically by key and joined with \<^verbatim>\<open>"-"\<close> behind a further \<^verbatim>\<open>"-"\<close>. The
  sort is the library's \<^const>\<open>sort_key\<close> on the lexicographic order of the strings.
\<close>

definition deriveId_spec :: "int \<Rightarrow> int option \<Rightarrow> (string \<times> string) list option \<Rightarrow> string" where
  "deriveId_spec productId' variationId' attributes' =
     (let id0 = String_of productId';
          id1 = (case variationId' of Some v \<Rightarrow> id0 @ ''-'' @ String_of v | None \<Rightarrow> id0)
      in case attributes' of
           None \<Rightarrow> id1
         | Some attrs \<Rightarrow>
             if attrs \<noteq> []
             then let pairs = map (\<lambda>(key, value). (key, key @ '':'' @ value)) attrs;
                      sorted_pairs = sort_key fst pairs
                  in id1 @ ''-'' @ join ''-'' (map snd sorted_pairs)
             else id1)"

subsection \<open>Example data\<close>

definition shirt :: "int \<Rightarrow> int option \<Rightarrow> CartItemInput" where
  "shirt q m = \<lparr>productId = 10, variationId = None, name = ''Shirt'', slug = ''shirt'', price = 25,
     regularPrice = None, quantity = q, image' = ''x'', attributes = None, maxQuantity = m\<rparr>"

definition jacket :: "int \<Rightarrow> CartItemInput" where
  "jacket q = \<lparr>productId = 10, variationId = None, name = ''Jacket'', slug = ''jacket'', price = 99,
     regularPrice = Some 120, quantity = q, image' = ''y'', attributes = None, maxQuantity = Some 8\<rparr>"

section \<open>Properties\<close>

subsection \<open>Searching the items\<close>

lemma findIndex_ge: "- 1 \<le> findIndex P xs"
  by (induction xs) (auto simp: Let_def)

lemma findIndex_absent: "findIndex P xs = - 1 \<longleftrightarrow> (\<forall>x \<in> set xs. \<not> P x)"
proof (induction xs)
  case Nil
  show ?case by simp
next
  case (Cons x xs)
  have "- 1 \<le> findIndex P xs" by (rule findIndex_ge)
  with Cons show ?case by (auto simp: Let_def)
qed

lemma findIndex_found:
  assumes "findIndex P xs \<noteq> - 1"
  shows "0 \<le> findIndex P xs \<and> nat (findIndex P xs) < length xs
         \<and> P (xs ! nat (findIndex P xs))
         \<and> (\<forall>j < nat (findIndex P xs). \<not> P (xs ! j))"
  using assms
proof (induction xs)
  case Nil
  then show ?case by simp
next
  case (Cons x xs)
  show ?case
  proof (cases "P x")
    case True
    then show ?thesis by simp
  next
    case False
    with Cons.prems have ne: "findIndex P xs \<noteq> - 1" by (auto simp: Let_def split: if_splits)
    from Cons.IH [OF ne] have ih: "0 \<le> findIndex P xs" "nat (findIndex P xs) < length xs"
      "P (xs ! nat (findIndex P xs))" "\<forall>j < nat (findIndex P xs). \<not> P (xs ! j)" by auto
    have eq: "findIndex P (x # xs) = findIndex P xs + 1" using False ne by (simp add: Let_def)
    have n: "nat (findIndex P xs + 1) = Suc (nat (findIndex P xs))" using ih(1) by simp
    show ?thesis unfolding eq n using ih False
      by (auto simp: nth_Cons split: nat.splits) 
  qed
qed

lemma findIndex_append_new:
  assumes "\<forall>x \<in> set xs. \<not> P x" "P y"
  shows "findIndex P (xs @ [y]) = int (length xs)"
  using assms by (induction xs) (auto simp: Let_def)

subsection \<open>The two branches of \<^verbatim>\<open>addItem\<close>\<close>

lemma addItem_absent:
  assumes "\<forall>it \<in> set (items s). id' it \<noteq> generateCartItemId lc (productId a) (variationId a) (attributes a)"
  shows "addItem lc a s = s\<lparr>items := items s @ [with_id a (generateCartItemId lc (productId a) (variationId a) (attributes a))], isOpen := True\<rparr>"
proof -
  have "findIndex (\<lambda>it. id' it = generateCartItemId lc (productId a) (variationId a) (attributes a)) (items s) = - 1"
    using assms by (simp add: findIndex_absent)
  then show ?thesis by (simp add: addItem_def)
qed

lemma addItem_present:
  assumes "findIndex (\<lambda>it. id' it = generateCartItemId lc (productId a) (variationId a) (attributes a)) (items s) = k" "k \<noteq> - 1"
  shows "addItem lc a s = s\<lparr>items := (items s)[nat k := (items s ! nat k)\<lparr>quantity :=
           clamp_to (maxQuantity (items s ! nat k)) (quantity (items s ! nat k) + quantity a)\<rparr>], isOpen := True\<rparr>"
  using assms by (simp add: addItem_def Let_def)

lemma addItem_ids:
  "map id' (items (addItem lc a s)) =
     (if generateCartItemId lc (productId a) (variationId a) (attributes a) \<in> set (map id' (items s))
      then map id' (items s)
      else map id' (items s) @ [generateCartItemId lc (productId a) (variationId a) (attributes a)])"
proof -
  let ?i = "generateCartItemId lc (productId a) (variationId a) (attributes a)"
  let ?k = "findIndex (\<lambda>it. id' it = ?i) (items s)"
  show ?thesis
  proof (cases "?k = - 1")
    case True
    then have fresh: "\<forall>it \<in> set (items s). id' it \<noteq> ?i" by (simp add: findIndex_absent)
    then have "?i \<notin> set (map id' (items s))" by auto
    then show ?thesis using addItem_absent [OF fresh] by (simp add: with_id_def)
  next
    case False
    from findIndex_found [OF False]
    have k: "nat ?k < length (items s)" "id' (items s ! nat ?k) = ?i" by auto
    have "items s ! nat ?k \<in> set (items s)" using k(1) by simp
    then have "id' (items s ! nat ?k) \<in> id' ` set (items s)" by (rule imageI)
    then have mem: "?i \<in> set (map id' (items s))" using k(2) by simp
    have nth: "map id' (items s) ! nat ?k = ?i" using k by simp
    have "map id' (items (addItem lc a s)) = (map id' (items s))[nat ?k := ?i]"
      using addItem_present [OF refl False] k by (simp add: map_update)
    also have "\<dots> = map id' (items s)"
      using list_update_id [of "map id' (items s)" "nat ?k"] nth by simp
    finally show ?thesis using mem by simp
  qed
qed

lemma removeItem_ids: "map id' (items (removeItem i s)) = filter (\<lambda>j. j \<noteq> i) (map id' (items s))"
  by (simp add: removeItem_def filter_map comp_def)

lemma updateQuantity_ids:
  "map id' (items (updateQuantity i q s)) =
     (if q \<le> 0 then filter (\<lambda>j. j \<noteq> i) (map id' (items s)) else map id' (items s))"
  by (simp add: updateQuantity_def filter_map comp_def Let_def)

subsection \<open>Merging\<close>

text \<open>
  Claim C1 (merge law). Starting from a cart with no item of the derived id, two calls of
  \<^verbatim>\<open>addItem\<close> whose inputs have the same \<^verbatim>\<open>productId\<close>, \<^verbatim>\<open>variationId\<close> and
  \<^verbatim>\<open>attributes\<close> and no \<^verbatim>\<open>maxQuantity\<close>, with quantities \<open>q1\<close> and \<open>q2\<close>, leave the
  earlier items in place followed by one new item; it is the only item with the derived
  id and its quantity is \<open>q1 + q2\<close>.
\<close>

theorem addItem_merge_law:
  assumes fresh: "\<forall>it \<in> set (items s). id' it \<noteq> generateCartItemId lc (productId a) (variationId a) (attributes a)"
    and same: "productId b = productId a" "variationId b = variationId a" "attributes b = attributes a"
    and nomax: "maxQuantity a = None" "maxQuantity b = None"
  shows "items (addItem lc b (addItem lc a s)) =
           items s @ [(with_id a (generateCartItemId lc (productId a) (variationId a) (attributes a)))\<lparr>quantity := quantity a + quantity b\<rparr>]
         \<and> filter (\<lambda>it. id' it = generateCartItemId lc (productId a) (variationId a) (attributes a)) (items (addItem lc b (addItem lc a s))) =
           [(with_id a (generateCartItemId lc (productId a) (variationId a) (attributes a)))\<lparr>quantity := quantity a + quantity b\<rparr>]"
proof -
  let ?i = "generateCartItemId lc (productId a) (variationId a) (attributes a)"
  let ?s1 = "addItem lc a s"
  have s1: "?s1 = s\<lparr>items := items s @ [with_id a ?i], isOpen := True\<rparr>"
    using fresh by (rule addItem_absent)
  have idb: "generateCartItemId lc (productId b) (variationId b) (attributes b) = ?i"
    using same by simp
  have idx: "findIndex (\<lambda>it. id' it = ?i) (items ?s1) = int (length (items s))"
    unfolding s1 using fresh by (simp add: findIndex_append_new with_id_def)
  have "int (length (items s)) \<noteq> - 1" by simp
  from addItem_present [of lc b ?s1, unfolded idb, OF idx this]
  have eq: "items (addItem lc b ?s1) = items s @ [(with_id a ?i)\<lparr>quantity := quantity a + quantity b\<rparr>]"
    unfolding s1 using nomax by (simp add: clamp_to_def with_id_def)
  have "filter (\<lambda>it. id' it = ?i) (items s) = []" using fresh by (simp add: filter_empty_conv)
  then have "filter (\<lambda>it. id' it = ?i) (items (addItem lc b ?s1)) = [(with_id a ?i)\<lparr>quantity := quantity a + quantity b\<rparr>]"
    unfolding eq by (simp add: with_id_def)
  with eq show ?thesis by simp
qed

text \<open>The first scenario of the specification: a shirt added with quantity 1, then with
  quantity 2, is one line of quantity 3.\<close>

theorem addItem_merge_law_witness:
  "map quantity (items (addItem codeUnitCompare (shirt 2 None) (addItem codeUnitCompare (shirt 1 None) initial))) = [3]
   \<and> map id' (items (addItem codeUnitCompare (shirt 2 None) (addItem codeUnitCompare (shirt 1 None) initial))) = [''10'']"
proof -
  have fresh: "\<forall>it \<in> set (items initial). id' it \<noteq>
      generateCartItemId codeUnitCompare (productId (shirt 1 None)) (variationId (shirt 1 None)) (attributes (shirt 1 None))"
    by (simp add: initial_def)
  have i: "generateCartItemId codeUnitCompare (productId (shirt 1 None)) (variationId (shirt 1 None)) (attributes (shirt 1 None)) = ''10''"
    by (simp add: shirt_def generateCartItemId_def String_of_def digits.simps digit_def)
  have same: "productId (shirt 2 None) = productId (shirt 1 None)"
    "variationId (shirt 2 None) = variationId (shirt 1 None)"
    "attributes (shirt 2 None) = attributes (shirt 1 None)"
    "maxQuantity (shirt 1 None) = None" "maxQuantity (shirt 2 None) = None"
    by (simp_all add: shirt_def)
  from addItem_merge_law [OF fresh same]
  have "items (addItem codeUnitCompare (shirt 2 None) (addItem codeUnitCompare (shirt 1 None) initial)) =
        items initial @ [(with_id (shirt 1 None) ''10'')\<lparr>quantity := quantity (shirt 1 None) + quantity (shirt 2 None)\<rparr>]"
    unfolding i by simp
  then show ?thesis by (simp add: initial_def with_id_def shirt_def)
qed

text \<open>
  Claim C10 (frame of a merge). When \<^verbatim>\<open>addItem\<close> finds the derived id at row \<open>k\<close> (the
  first row with that id), the cart keeps its length, every other row is unchanged, and
  row \<open>k\<close> is the old row with only its quantity replaced: price, \<^verbatim>\<open>maxQuantity\<close>,
  attributes, name, slug, image and id are those stored before, whatever the candidate
  carries.
\<close>

theorem addItem_merge_frame:
  assumes idx: "findIndex (\<lambda>it. id' it = generateCartItemId lc (productId a) (variationId a) (attributes a)) (items s) = int k"
  shows "k < length (items s)
         \<and> id' (items s ! k) = generateCartItemId lc (productId a) (variationId a) (attributes a)
         \<and> (\<forall>j < k. id' (items s ! j) \<noteq> generateCartItemId lc (productId a) (variationId a) (attributes a))
         \<and> length (items (addItem lc a s)) = length (items s)
         \<and> (\<forall>j < length (items s). j \<noteq> k \<longrightarrow> items (addItem lc a s) ! j = items s ! j)
         \<and> items (addItem lc a s) ! k =
             (items s ! k)\<lparr>quantity := clamp_to (maxQuantity (items s ! k)) (quantity (items s ! k) + quantity a)\<rparr>
         \<and> price (items (addItem lc a s) ! k) = price (items s ! k)
         \<and> regularPrice (items (addItem lc a s) ! k) = regularPrice (items s ! k)
         \<and> maxQuantity (items (addItem lc a s) ! k) = maxQuantity (items s ! k)
         \<and> attributes (items (addItem lc a s) ! k) = attributes (items s ! k)
         \<and> name (items (addItem lc a s) ! k) = name (items s ! k)
         \<and> slug (items (addItem lc a s) ! k) = slug (items s ! k)
         \<and> image' (items (addItem lc a s) ! k) = image' (items s ! k)
         \<and> id' (items (addItem lc a s) ! k) = id' (items s ! k)"
proof -
  let ?i = "generateCartItemId lc (productId a) (variationId a) (attributes a)"
  have ne: "int k \<noteq> - 1" by simp
  from findIndex_found [of "\<lambda>it. id' it = ?i" "items s"] idx
  have k: "k < length (items s)" "id' (items s ! k) = ?i" "\<forall>j < k. id' (items s ! j) \<noteq> ?i"
    by simp_all
  have eq: "items (addItem lc a s) = (items s)[k := (items s ! k)\<lparr>quantity :=
           clamp_to (maxQuantity (items s ! k)) (quantity (items s ! k) + quantity a)\<rparr>]"
    using addItem_present [OF idx ne] by simp
  show ?thesis unfolding eq using k by simp
qed

text \<open>A jacket whose derived id is that of the shirt already in the cart: the line stays
  a shirt at the shirt's price and without a stock limit; only the quantity moves.\<close>

theorem addItem_merge_frame_witness:
  "name (items (addItem codeUnitCompare (jacket 2) (addItem codeUnitCompare (shirt 1 None) initial)) ! 0) = ''Shirt''
   \<and> price (items (addItem codeUnitCompare (jacket 2) (addItem codeUnitCompare (shirt 1 None) initial)) ! 0) = 25
   \<and> maxQuantity (items (addItem codeUnitCompare (jacket 2) (addItem codeUnitCompare (shirt 1 None) initial)) ! 0) = None
   \<and> quantity (items (addItem codeUnitCompare (jacket 2) (addItem codeUnitCompare (shirt 1 None) initial)) ! 0) = 3"
proof -
  have s1: "items (addItem codeUnitCompare (shirt 1 None) initial) = [with_id (shirt 1 None) ''10'']"
    by (simp add: addItem_def initial_def shirt_def generateCartItemId_def String_of_def digits.simps digit_def)
  have i: "generateCartItemId codeUnitCompare (productId (jacket 2)) (variationId (jacket 2)) (attributes (jacket 2)) = ''10''"
    by (simp add: jacket_def generateCartItemId_def String_of_def digits.simps digit_def)
  have idx: "findIndex (\<lambda>it. id' it = generateCartItemId codeUnitCompare (productId (jacket 2)) (variationId (jacket 2)) (attributes (jacket 2)))
               (items (addItem codeUnitCompare (shirt 1 None) initial)) = int 0"
    unfolding i s1 by (simp add: with_id_def)
  from addItem_merge_frame [OF idx]
  have "items (addItem codeUnitCompare (jacket 2) (addItem codeUnitCompare (shirt 1 None) initial)) ! 0 =
        (items (addItem codeUnitCompare (shirt 1 None) initial) ! 0)\<lparr>quantity :=
           clamp_to (maxQuantity (items (addItem codeUnitCompare (shirt 1 None) initial) ! 0))
             (quantity (items (addItem codeUnitCompare (shirt 1 None) initial) ! 0) + quantity (jacket 2))\<rparr>"
    by simp
  then show ?thesis unfolding s1 by (simp add: with_id_def shirt_def jacket_def clamp_to_def)
qed

subsection \<open>Uniqueness of ids\<close>

lemma apply_action_distinct:
  "distinct (map id' (items s)) \<Longrightarrow> distinct (map id' (items (apply_action lc s act)))"
proof (cases act)
  case (AddItem a)
  assume "distinct (map id' (items s))"
  then show ?thesis unfolding AddItem apply_action.simps addItem_ids by simp
next
  case (RemoveItem i)
  assume "distinct (map id' (items s))"
  then show ?thesis unfolding RemoveItem apply_action.simps removeItem_ids by simp
next
  case (UpdateQuantity i q)
  assume "distinct (map id' (items s))"
  then show ?thesis unfolding UpdateQuantity apply_action.simps updateQuantity_ids by simp
next
  case ClearCart
  then show ?thesis by (simp add: clearCart_def)
qed

lemma foldl_apply_distinct:
  "distinct (map id' (items s)) \<Longrightarrow> distinct (map id' (items (foldl (apply_action lc) s acts)))"
  by (induction acts arbitrary: s) (simp_all add: apply_action_distinct)

text \<open>
  Claim C6 (id uniqueness). In every cart state reached from the empty cart by
  \<^verbatim>\<open>addItem\<close>, \<^verbatim>\<open>removeItem\<close>, \<^verbatim>\<open>updateQuantity\<close> and \<^verbatim>\<open>clearCart\<close> no two items have
  the same id. An \<^verbatim>\<open>addItem\<close> whose derived id is already in the cart leaves the sequence
  of ids as it is (no second row is appended) and sets the quantity of the row found, at
  index \<open>k\<close>, to the sum of the stored and the added quantity, cut at the stored
  \<^verbatim>\<open>maxQuantity\<close> when that is defined and not \<^verbatim>\<open>0\<close>.
\<close>

theorem id_unique_invariant:
  "distinct (map id' (items (run lc acts)))
   \<and> (generateCartItemId lc (productId a) (variationId a) (attributes a) \<in> set (map id' (items s))
        \<longrightarrow> map id' (items (addItem lc a s)) = map id' (items s))
   \<and> (findIndex (\<lambda>it. id' it = generateCartItemId lc (productId a) (variationId a) (attributes a)) (items s) = int k
        \<longrightarrow> quantity (items (addItem lc a s) ! k) =
              clamp_to (maxQuantity (items s ! k)) (quantity (items s ! k) + quantity a)
            \<and> clamp_to None (quantity (items s ! k) + quantity a) = quantity (items s ! k) + quantity a)"
proof (intro conjI impI)
  show "distinct (map id' (items (run lc acts)))"
    unfolding run_def by (rule foldl_apply_distinct) (simp add: initial_def)
  show "map id' (items (addItem lc a s)) = map id' (items s)"
    if "generateCartItemId lc (productId a) (variationId a) (attributes a) \<in> set (map id' (items s))"
    using that by (simp add: addItem_ids)
  show "clamp_to None (quantity (items s ! k) + quantity a) = quantity (items s ! k) + quantity a"
    by (simp add: clamp_to_def)
  show "quantity (items (addItem lc a s) ! k) =
          clamp_to (maxQuantity (items s ! k)) (quantity (items s ! k) + quantity a)"
    if idx: "findIndex (\<lambda>it. id' it = generateCartItemId lc (productId a) (variationId a) (attributes a)) (items s) = int k"
  proof -
    have ne: "int k \<noteq> - 1" by simp
    from findIndex_found [of "\<lambda>it. id' it = generateCartItemId lc (productId a) (variationId a) (attributes a)" "items s"] idx
    have k: "k < length (items s)" by simp
    show ?thesis using addItem_present [OF idx ne] k by simp
  qed
qed

theorem id_unique_invariant_witness:
  "distinct (map id' (items (run codeUnitCompare [AddItem (shirt 1 None), AddItem (jacket 2), AddItem (shirt 4 None)])))
   \<and> map id' (items (addItem codeUnitCompare (jacket 2) (addItem codeUnitCompare (shirt 1 None) initial))) = [''10'']
   \<and> quantity (items (addItem codeUnitCompare (jacket 2) (addItem codeUnitCompare (shirt 1 None) initial)) ! 0) = 3"
proof -
  have s1: "items (addItem codeUnitCompare (shirt 1 None) initial) = [with_id (shirt 1 None) ''10'']"
    by (simp add: addItem_def initial_def shirt_def generateCartItemId_def String_of_def digits.simps digit_def)
  have i: "generateCartItemId codeUnitCompare (productId (jacket 2)) (variationId (jacket 2)) (attributes (jacket 2)) = ''10''"
    by (simp add: jacket_def generateCartItemId_def String_of_def digits.simps digit_def)
  have mem: "generateCartItemId codeUnitCompare (productId (jacket 2)) (variationId (jacket 2)) (attributes (jacket 2))
               \<in> set (map id' (items (addItem codeUnitCompare (shirt 1 None) initial)))"
    unfolding i s1 by (simp add: with_id_def)
  have idx: "findIndex (\<lambda>it. id' it = generateCartItemId codeUnitCompare (productId (jacket 2)) (variationId (jacket 2)) (attributes (jacket 2)))
               (items (addItem codeUnitCompare (shirt 1 None) initial)) = int 0"
    unfolding i s1 by (simp add: with_id_def)
  from id_unique_invariant [of codeUnitCompare "[AddItem (shirt 1 None), AddItem (jacket 2), AddItem (shirt 4 None)]"
      "jacket 2" "addItem codeUnitCompare (shirt 1 None) initial" 0] mem idx
  have "distinct (map id' (items (run codeUnitCompare [AddItem (shirt 1 None), AddItem (jacket 2), AddItem (shirt 4 None)])))"
    and "map id' (items (addItem codeUnitCompare (jacket 2) (addItem codeUnitCompare (shirt 1 None) initial)))
         = map id' (items (addItem codeUnitCompare (shirt 1 None) initial))"
    and "quantity (items (addItem codeUnitCompare (jacket 2) (addItem codeUnitCompare (shirt 1 None) initial)) ! 0) =
         clamp_to (maxQuantity (items (addItem codeUnitCompare (shirt 1 None) initial) ! 0))
           (quantity (items (addItem codeUnitCompare (shirt 1 None) initial) ! 0) + quantity (jacket 2))"
    by simp_all
  then show ?thesis unfolding s1 by (simp add: with_id_def shirt_def jacket_def clamp_to_def)
qed

subsection \<open>Updating to a non-positive quantity\<close>

text \<open>
  Claim C7. For every cart state, every id and every quantity \<open>q \<le> 0\<close>,
  \<^verbatim>\<open>updateQuantity(id, q)\<close> produces the items that \<^verbatim>\<open>removeItem(id)\<close> produces (indeed
  the same state); when no item has the id, both leave the state as it is.
\<close>

theorem updateQuantity_nonpositive_removes:
  assumes "q \<le> 0"
  shows "items (updateQuantity i q s) = items (removeItem i s)
         \<and> updateQuantity i q s = removeItem i s
         \<and> ((\<forall>it \<in> set (items s). id' it \<noteq> i) \<longrightarrow> updateQuantity i q s = s \<and> removeItem i s = s)"
proof -
  have eq: "updateQuantity i q s = removeItem i s"
    using assms by (simp add: updateQuantity_def removeItem_def)
  have "removeItem i s = s" if "\<forall>it \<in> set (items s). id' it \<noteq> i"
  proof -
    from that have "filter (\<lambda>item. id' item \<noteq> i) (items s) = items s" by (simp add: filter_id_conv)
    then show ?thesis by (simp add: removeItem_def)
  qed
  with eq show ?thesis by simp
qed

theorem updateQuantity_nonpositive_removes_witness:
  "items (updateQuantity ''10'' (- 5) (addItem codeUnitCompare (shirt 1 None) initial)) = []
   \<and> items (updateQuantity ''10'' 0 (addItem codeUnitCompare (shirt 1 None) initial)) = []
   \<and> updateQuantity ''11'' (- 5) (addItem codeUnitCompare (shirt 1 None) initial) = addItem codeUnitCompare (shirt 1 None) initial"
proof -
  have s1: "items (addItem codeUnitCompare (shirt 1 None) initial) = [with_id (shirt 1 None) ''10'']"
    by (simp add: addItem_def initial_def shirt_def generateCartItemId_def String_of_def digits.simps digit_def)
  have r: "items (removeItem ''10'' (addItem codeUnitCompare (shirt 1 None) initial)) = []"
    by (simp add: removeItem_def s1 with_id_def)
  have absent: "\<forall>it \<in> set (items (addItem codeUnitCompare (shirt 1 None) initial)). id' it \<noteq> ''11''"
    unfolding s1 by (simp add: with_id_def)
  have "(- 5 :: int) \<le> 0" "(0 :: int) \<le> 0" by simp_all
  from updateQuantity_nonpositive_removes [OF this(1), of "''10''" "addItem codeUnitCompare (shirt 1 None) initial"]
    updateQuantity_nonpositive_removes [OF this(2), of "''10''" "addItem codeUnitCompare (shirt 1 None) initial"]
    updateQuantity_nonpositive_removes [OF this(1), of "''11''" "addItem codeUnitCompare (shirt 1 None) initial"]
    r absent
  show ?thesis by simp
qed

subsection \<open>Totals\<close>

lemma calculateTotals_foldl:
  "foldl (\<lambda>acc item.
              \<lparr>total = total acc + price item * of_int (quantity item),
               subtotal = subtotal acc + price item * of_int (quantity item),
               itemCount = itemCount acc + quantity item\<rparr>) acc its
   = \<lparr>total = total acc + (\<Sum>it\<leftarrow>its. price it * of_int (quantity it)),
      subtotal = subtotal acc + (\<Sum>it\<leftarrow>its. price it * of_int (quantity it)),
      itemCount = itemCount acc + (\<Sum>it\<leftarrow>its. quantity it)\<rparr>"
  by (induction its arbitrary: acc) (simp_all add: add.assoc)

lemma calculateTotals_sum:
  "calculateTotals its = \<lparr>total = (\<Sum>it\<leftarrow>its. price it * of_int (quantity it)),
      subtotal = (\<Sum>it\<leftarrow>its. price it * of_int (quantity it)),
      itemCount = (\<Sum>it\<leftarrow>its. quantity it)\<rparr>"
  unfolding calculateTotals_def calculateTotals_foldl by simp

text \<open>The data of the store evolve as the actions say, whatever the computed
  properties do.\<close>

lemma create_configResult: "create slot = configResult"
  by (simp add: create_def merge_uncreated_def spread_uncreated_def read_uncreated_def configResult_def)

lemma state_store_apply: "state (store_apply lc st act) = apply_action lc (state st) act"
  by (simp add: store_apply_def setState_def)

lemma state_foldl_store_apply:
  "state (foldl (store_apply lc) st acts) = foldl (apply_action lc) (state st) acts"
  by (induction acts arbitrary: st) (simp_all add: state_store_apply)

lemma state_store_run: "state (store_run lc slot acts) = run lc acts"
  by (simp add: store_run_def run_def state_foldl_store_apply create_configResult configResult_def)

text \<open>The computed properties never leave the values of the empty cart: the first
  \<^verbatim>\<open>set\<close> reads the getters on the empty cart and stores the results, and every later
  \<^verbatim>\<open>set\<close> copies them.\<close>

lemma store_total_stale:
  "store_total (store_run lc slot acts) = 0 \<and> store_subtotal (store_run lc slot acts) = 0
   \<and> store_itemCount (store_run lc slot acts) = 0 \<and> store_isEmpty (store_run lc slot acts)"
proof -
  have start: "store_total configResult = 0 \<and> store_subtotal configResult = 0
               \<and> store_itemCount configResult = 0 \<and> store_isEmpty configResult"
    by (simp add: store_total_def store_subtotal_def store_itemCount_def store_isEmpty_def
        read_property_def configResult_def getter_total_def getter_subtotal_def getter_itemCount_def
        getter_isEmpty_def initial_def calculateTotals_def)
  have step: "store_total (setState f st) = store_total st \<and> store_subtotal (setState f st) = store_subtotal st
              \<and> store_itemCount (setState f st) = store_itemCount st \<and> store_isEmpty (setState f st) = store_isEmpty st"
    for f st
    by (simp add: store_total_def store_subtotal_def store_itemCount_def store_isEmpty_def
        setState_def read_property_def)
  have "store_total (foldl (store_apply lc) st acts) = store_total st
        \<and> store_subtotal (foldl (store_apply lc) st acts) = store_subtotal st
        \<and> store_itemCount (foldl (store_apply lc) st acts) = store_itemCount st
        \<and> store_isEmpty (foldl (store_apply lc) st acts) = store_isEmpty st" for st
    by (induction acts arbitrary: st) (simp_all add: store_apply_def step)
  with start show ?thesis by (simp add: store_run_def create_configResult)
qed

text \<open>The selector hooks do compute the sums over the current items.\<close>

lemma hooks_sum:
  "useCartTotal st = (\<Sum>it\<leftarrow>items (state st). price it * of_int (quantity it))
   \<and> useCartItemCount st = (\<Sum>it\<leftarrow>items (state st). quantity it)"
  by (simp add: useCartTotal_def useCartItemCount_def calculateTotals_sum)

text \<open>
  Claim C8 (total purity), evaluated on the store. The claim asks that after every
  sequence of actions the derived total is the sum of price times quantity over the
  current items and the item count the sum of the quantities, recomputed on every read.
  After a shirt is added with quantity 1 and again with quantity 2, the cart holds one
  line of quantity 3 at 25, and the selector hooks give 75 and 3; the computed
  properties \<^verbatim>\<open>total\<close>, \<^verbatim>\<open>itemCount\<close> and \<^verbatim>\<open>isEmpty\<close> of the store read 0, 0 and
  \<^verbatim>\<open>true\<close>.
\<close>

theorem store_getters_stale:
  "store_total (store_run codeUnitCompare None [AddItem (shirt 1 None), AddItem (shirt 2 None)]) = 0
   \<and> store_itemCount (store_run codeUnitCompare None [AddItem (shirt 1 None), AddItem (shirt 2 None)]) = 0
   \<and> store_isEmpty (store_run codeUnitCompare None [AddItem (shirt 1 None), AddItem (shirt 2 None)]) = True
   \<and> map quantity (items (state (store_run codeUnitCompare None [AddItem (shirt 1 None), AddItem (shirt 2 None)]))) = [3]
   \<and> map price (items (state (store_run codeUnitCompare None [AddItem (shirt 1 None), AddItem (shirt 2 None)]))) = [25]
   \<and> useCartTotal (store_run codeUnitCompare None [AddItem (shirt 1 None), AddItem (shirt 2 None)]) = 75
   \<and> useCartItemCount (store_run codeUnitCompare None [AddItem (shirt 1 None), AddItem (shirt 2 None)]) = 3"
proof -
  have s2: "items (run codeUnitCompare [AddItem (shirt 1 None), AddItem (shirt 2 None)])
            = [(with_id (shirt 1 None) ''10'')\<lparr>quantity := 3\<rparr>]"
    by (simp add: run_def addItem_def initial_def shirt_def generateCartItemId_def String_of_def
        digits.simps digit_def with_id_def clamp_to_def)
  show ?thesis
    using store_total_stale [of codeUnitCompare None "[AddItem (shirt 1 None), AddItem (shirt 2 None)]"]
    unfolding useCartTotal_def useCartItemCount_def state_store_run s2
    by (simp add: calculateTotals_def with_id_def shirt_def)
qed

subsection \<open>The derived id\<close>

lemma compare_keys_apply: "compare_keys lc x y = lc (fst x) (fst y)"
  by (simp add: compare_keys_def split_beta)

lemma set_insert_sorted: "set (insert_sorted cmp x zs) = insert x (set zs)"
  by (induction zs) auto

lemma set_array_sort: "set (array_sort cmp xs) = set xs"
  unfolding array_sort_def by (induction xs) (simp_all add: set_insert_sorted)

lemma array_sort_Cons: "array_sort cmp (x # xs) = insert_sorted cmp x (array_sort cmp xs)"
  by (simp add: array_sort_def)

lemma insert_sorted_commute:
  assumes lin: "linear_on lc K" and kx: "fst x \<in> K" and ky: "fst y \<in> K"
    and kz: "fst ` set zs \<subseteq> K" and ne: "fst x \<noteq> fst y"
  shows "insert_sorted (compare_keys lc) x (insert_sorted (compare_keys lc) y zs) =
         insert_sorted (compare_keys lc) y (insert_sorted (compare_keys lc) x zs)"
  using kz
proof (induction zs)
  case Nil
  from lin kx ky ne have "compare_keys lc x y \<le> 0 \<longleftrightarrow> \<not> compare_keys lc y x \<le> 0"
    unfolding linear_on_def compare_keys_apply by blast
  then show ?case by simp
next
  case (Cons z zs)
  then have kz': "fst z \<in> K" and IH: "insert_sorted (compare_keys lc) x (insert_sorted (compare_keys lc) y zs) =
         insert_sorted (compare_keys lc) y (insert_sorted (compare_keys lc) x zs)" by auto
  from lin kx ky ne have xy: "compare_keys lc x y \<le> 0 \<longleftrightarrow> \<not> compare_keys lc y x \<le> 0"
    unfolding linear_on_def compare_keys_apply by blast
  from lin kx ky kz' have t1: "compare_keys lc x y \<le> 0 \<Longrightarrow> compare_keys lc y z \<le> 0 \<Longrightarrow> compare_keys lc x z \<le> 0"
    unfolding linear_on_def compare_keys_apply by blast
  from lin kx ky kz' have t2: "compare_keys lc y x \<le> 0 \<Longrightarrow> compare_keys lc x z \<le> 0 \<Longrightarrow> compare_keys lc y z \<le> 0"
    unfolding linear_on_def compare_keys_apply by blast
  show ?case
    using xy t1 t2 IH by auto
qed

lemma array_sort_middle:
  assumes lin: "linear_on lc K" and kx: "fst x \<in> K"
    and k1: "fst ` set ys1 \<subseteq> K" and k2: "fst ` set ys2 \<subseteq> K"
    and fresh: "fst x \<notin> fst ` set ys1"
  shows "array_sort (compare_keys lc) (ys1 @ x # ys2) =
         insert_sorted (compare_keys lc) x (array_sort (compare_keys lc) (ys1 @ ys2))"
  using k1 fresh
proof (induction ys1)
  case Nil
  show ?case by (simp add: array_sort_Cons)
next
  case (Cons y ys1)
  then have ky: "fst y \<in> K" and ne: "fst y \<noteq> fst x"
    and IH: "array_sort (compare_keys lc) (ys1 @ x # ys2) =
         insert_sorted (compare_keys lc) x (array_sort (compare_keys lc) (ys1 @ ys2))" by auto
  have ks: "fst ` set (array_sort (compare_keys lc) (ys1 @ ys2)) \<subseteq> K"
    using Cons.prems(1) k2 by (auto simp: set_array_sort)
  have "array_sort (compare_keys lc) ((y # ys1) @ x # ys2) =
        insert_sorted (compare_keys lc) y (insert_sorted (compare_keys lc) x (array_sort (compare_keys lc) (ys1 @ ys2)))"
    by (simp add: array_sort_Cons IH)
  also have "\<dots> = insert_sorted (compare_keys lc) x (insert_sorted (compare_keys lc) y (array_sort (compare_keys lc) (ys1 @ ys2)))"
    by (rule insert_sorted_commute [OF lin ky kx ks ne])
  finally show ?case by (simp add: array_sort_Cons)
qed

lemma array_sort_permutation:
  assumes lin: "linear_on lc K"
  shows "fst ` set xs \<subseteq> K \<Longrightarrow> distinct (map fst xs) \<Longrightarrow> distinct (map fst ys) \<Longrightarrow> set xs = set ys
         \<Longrightarrow> array_sort (compare_keys lc) xs = array_sort (compare_keys lc) ys"
proof (induction xs arbitrary: ys)
  case Nil
  then show ?case by simp
next
  case (Cons x xs)
  from Cons.prems(4) have "x \<in> set ys" by auto
  then obtain ys1 ys2 where ys: "ys = ys1 @ x # ys2" by (auto dest: split_list)
  from Cons.prems(3) have d: "fst x \<notin> fst ` set ys1" "fst x \<notin> fst ` set ys2" "distinct (map fst (ys1 @ ys2))"
    unfolding ys by auto
  from Cons.prems(2) have dx: "fst x \<notin> fst ` set xs" "distinct (map fst xs)" by auto
  have sets: "set xs = set (ys1 @ ys2)"
  proof -
    have "x \<notin> set xs" using dx(1) by auto
    moreover have "x \<notin> set ys1" "x \<notin> set ys2" using d by auto
    ultimately show ?thesis using Cons.prems(4) unfolding ys by auto
  qed
  have kxs: "fst ` set xs \<subseteq> K" and kx: "fst x \<in> K" using Cons.prems(1) by auto
  have k12: "fst ` set ys1 \<subseteq> K" "fst ` set ys2 \<subseteq> K" using kxs sets by auto
  have "array_sort (compare_keys lc) xs = array_sort (compare_keys lc) (ys1 @ ys2)"
    by (rule Cons.IH [OF kxs dx(2) d(3) sets])
  then show ?case
    unfolding ys array_sort_middle [OF lin kx k12 d(1)] by (simp add: array_sort_Cons)
qed

lemma linear_on_codeUnitCompare: "linear_on codeUnitCompare K"
  unfolding linear_on_def codeUnitCompare_def by (auto split: if_splits)

text \<open>
  Claim C2, as amended (the id does not depend on the order of the attributes). For
  every \<^verbatim>\<open>productId\<close> \<open>p\<close>, every optional \<^verbatim>\<open>variationId\<close> \<open>v\<close> and any two attribute
  records \<open>xs\<close> and \<open>ys\<close> that hold the same key-value pairs (each key once) in different
  enumeration orders, \<^verbatim>\<open>generateCartItemId\<close> returns the same string, provided
  \<^verbatim>\<open>localeCompare\<close>, total and transitive on the keys of the record, compares no two
  distinct keys of the record as equal.
\<close>

theorem generateCartItemId_order_independent:
  assumes "linear_on lc (fst ` set xs)" "distinct (map fst xs)" "distinct (map fst ys)" "set xs = set ys"
  shows "generateCartItemId lc p v (Some xs) = generateCartItemId lc p v (Some ys)"
proof -
  have eq: "array_sort (compare_keys lc) xs = array_sort (compare_keys lc) ys"
    using array_sort_permutation [OF assms(1) subset_refl assms(2,3,4)] .
  have "length xs > 0 \<longleftrightarrow> length ys > 0" using assms(4) by (cases xs; cases ys) auto
  then show ?thesis by (simp add: generateCartItemId_def Let_def eq)
qed

text \<open>The claim as written fails where \<^verbatim>\<open>localeCompare\<close> returns \<^verbatim>\<open>0\<close> for two distinct
  keys: the sort is stable and keeps them in the order of enumeration. The two keys
  here are the two canonically equivalent spellings of e-acute.\<close>

theorem generateCartItemId_order_counterexample:
  "generateCartItemId hostLikeCompare 7 (Some 3)
       (Some [([CHR 0xC3, CHR 0xA9], ''1''), ([CHR ''e'', CHR 0xCC, CHR 0x81], ''2'')])
     = ''7-3-'' @ [CHR 0xC3, CHR 0xA9] @ '':1-'' @ [CHR ''e'', CHR 0xCC, CHR 0x81] @ '':2''
   \<and> generateCartItemId hostLikeCompare 7 (Some 3)
       (Some [([CHR ''e'', CHR 0xCC, CHR 0x81], ''2''), ([CHR 0xC3, CHR 0xA9], ''1'')])
     = ''7-3-'' @ [CHR ''e'', CHR 0xCC, CHR 0x81] @ '':2-'' @ [CHR 0xC3, CHR 0xA9] @ '':1''
   \<and> hostLikeCompare [CHR 0xC3, CHR 0xA9] [CHR ''e'', CHR 0xCC, CHR 0x81] = 0"
  by code_simp

text \<open>The example of the specification, \<^verbatim>\<open>{A:"1", B:"2"}\<close> against \<^verbatim>\<open>{B:"2", A:"1"}\<close>.\<close>

theorem generateCartItemId_order_independent_witness:
  "generateCartItemId codeUnitCompare 7 (Some 3) (Some [(''A'', ''1''), (''B'', ''2'')]) =
   generateCartItemId codeUnitCompare 7 (Some 3) (Some [(''B'', ''2''), (''A'', ''1'')])"
proof -
  have "set [(''A'', ''1''), (''B'', ''2'')] = set [(''B'', ''2''), (''A'', ''1'')]" by auto
  then show ?thesis
    using generateCartItemId_order_independent [OF linear_on_codeUnitCompare,
        of "[(''A'', ''1''), (''B'', ''2'')]" "[(''B'', ''2''), (''A'', ''1'')]" 7 "Some 3"]
    by simp
qed

lemma insert_sorted_insort_key:
  assumes "agrees_lexicographic lc K" "fst x \<in> K" "fst ` set zs \<subseteq> K"
  shows "insert_sorted (compare_keys lc) x zs = insort_key fst x zs"
  using assms(3)
proof (induction zs)
  case Nil
  show ?case by simp
next
  case (Cons z zs)
  then have "fst z \<in> K" by simp
  with assms(1,2) have "(compare_keys lc x z \<le> 0) = (fst x \<le> fst z)"
    unfolding agrees_lexicographic_def compare_keys_apply by blast
  with Cons show ?case by simp
qed

lemma array_sort_sort_key:
  assumes "agrees_lexicographic lc K"
  shows "fst ` set xs \<subseteq> K \<Longrightarrow> array_sort (compare_keys lc) xs = sort_key fst xs"
proof (induction xs)
  case Nil
  show ?case by (simp add: array_sort_def)
next
  case (Cons x xs)
  then have ih: "array_sort (compare_keys lc) xs = sort_key fst xs" and kx: "fst x \<in> K"
    and ks: "fst ` set (sort_key fst xs) \<subseteq> K" by simp_all
  show ?case
    unfolding array_sort_Cons ih by (simp add: insert_sorted_insort_key [OF assms kx ks])
qed

lemma insort_key_map_keys:
  assumes "\<And>e. fst (g e) = fst e"
  shows "insort_key fst (g x) (map g zs) = map g (insort_key fst x zs)"
  by (induction zs) (simp_all add: assms)

lemma sort_key_map_keys:
  assumes "\<And>e. fst (g e) = fst e"
  shows "sort_key fst (map g xs) = map g (sort_key fst xs)"
  by (induction xs) (simp_all add: insort_key_map_keys [OF assms])

lemma agrees_codeUnitCompare: "agrees_lexicographic codeUnitCompare K"
  unfolding agrees_lexicographic_def codeUnitCompare_def by auto

text \<open>
  Claim C3, as amended. With a \<^verbatim>\<open>variationId\<close> of \<^verbatim>\<open>0\<close> read as absent, and for every
  input on whose attribute keys \<^verbatim>\<open>localeCompare\<close> agrees with the lexicographic order,
  \<^verbatim>\<open>generateCartItemId\<close> follows the reference algorithm of the specification: the
  result is \<^verbatim>\<open>stringOf(productId)\<close>; then, whenever \<^verbatim>\<open>variationId\<close> is present and not
  \<^verbatim>\<open>0\<close>, \<^verbatim>\<open>"-"\<close> and \<^verbatim>\<open>stringOf(variationId)\<close>; then, whenever the attributes are
  non-empty, \<^verbatim>\<open>"-"\<close> and the \<^verbatim>\<open>key:value\<close> pairs sorted lexicographically by key and
  joined with \<^verbatim>\<open>"-"\<close>.
\<close>

theorem generateCartItemId_follows_deriveId:
  assumes "agrees_lexicographic lc (attribute_keys a)"
  shows "generateCartItemId lc p v a = deriveId_spec p (if v = Some 0 then None else v) a"
proof -
  have srt: "map snd (sort_key fst (map (\<lambda>(key, value). (key, f key value)) xs))
           = map (\<lambda>(key, value). f key value) (sort_key fst xs)"
    for xs and f :: "string \<Rightarrow> string \<Rightarrow> string"
    by (simp add: sort_key_map_keys split_beta comp_def)
  have eq: "array_sort (compare_keys lc) xs = sort_key fst xs" if "a = Some xs" for xs
    using assms that by (intro array_sort_sort_key [of lc "fst ` set xs"]) (simp_all add: attribute_keys_def)
  show ?thesis
  proof (cases a)
    case None
    then show ?thesis
      by (cases v) (simp_all add: generateCartItemId_def deriveId_spec_def truthy_def Let_def)
  next
    case (Some xs)
    show ?thesis unfolding Some
      by (cases v) (simp_all add: generateCartItemId_def deriveId_spec_def truthy_def Let_def srt eq [OF Some])
  qed
qed

text \<open>The claim as written fails in two ways. A \<^verbatim>\<open>variationId\<close> of \<^verbatim>\<open>0\<close> is present, and
  the source appends nothing for it. And the source sorts with \<^verbatim>\<open>localeCompare\<close>, which
  is not the lexicographic order: a collation that compares letters before case puts
  \<^verbatim>\<open>color\<close> before \<^verbatim>\<open>Size\<close>, the lexicographic order puts \<^verbatim>\<open>Size\<close> first.\<close>

theorem generateCartItemId_deriveId_counterexample:
  "generateCartItemId codeUnitCompare 5 (Some 0) None = ''5''
   \<and> deriveId_spec 5 (Some 0) None = ''5-0''
   \<and> generateCartItemId hostLikeCompare 7 None (Some [(''Size'', ''L''), (''color'', ''Red'')]) = ''7-color:Red-Size:L''
   \<and> deriveId_spec 7 None (Some [(''Size'', ''L''), (''color'', ''Red'')]) = ''7-Size:L-color:Red''"
  by code_simp

theorem generateCartItemId_follows_deriveId_witness:
  "generateCartItemId codeUnitCompare 5 (Some 99) (Some [(''Size'', ''M''), (''Color'', ''Blue'')]) = ''5-99-Color:Blue-Size:M''
   \<and> deriveId_spec 5 (Some 99) (Some [(''Size'', ''M''), (''Color'', ''Blue'')]) = ''5-99-Color:Blue-Size:M''"
proof -
  have d: "deriveId_spec 5 (Some 99) (Some [(''Size'', ''M''), (''Color'', ''Blue'')]) = ''5-99-Color:Blue-Size:M''"
    by code_simp
  show ?thesis
    using generateCartItemId_follows_deriveId [where lc = codeUnitCompare and p = 5 and v = "Some 99"
        and a = "Some [(''Size'', ''M''), (''Color'', ''Blue'')]", OF agrees_codeUnitCompare] d
    by simp
qed

subsection \<open>The stock limit\<close>

lemma clamp_to_exceeds: "m \<noteq> 0 \<Longrightarrow> m < q \<Longrightarrow> clamp_to (Some m) q = m"
  by (simp add: clamp_to_def truthy_def)

lemma clamp_to_le: "m \<noteq> 0 \<Longrightarrow> clamp_to (Some m) q \<le> m"
  by (simp add: clamp_to_def truthy_def)

text \<open>
  Claim C4, as amended (clamp law). For every \<^verbatim>\<open>maxQuantity\<close> value \<open>m\<close> other than \<^verbatim>\<open>0\<close>:
  when \<^verbatim>\<open>addItem\<close> finds the derived id at row \<open>k\<close>, that row stores \<^verbatim>\<open>maxQuantity = m\<close>,
  and the stored quantity plus the added quantity strictly exceeds \<open>m\<close>, the quantity of
  the row becomes exactly \<open>m\<close> (and no row is added).
\<close>

theorem addItem_clamp_law:
  assumes idx: "findIndex (\<lambda>it. id' it = generateCartItemId lc (productId a) (variationId a) (attributes a)) (items s) = int k"
    and lim: "maxQuantity (items s ! k) = Some m" "m \<noteq> 0"
    and exceed: "m < quantity (items s ! k) + quantity a"
  shows "quantity (items (addItem lc a s) ! k) = m \<and> length (items (addItem lc a s)) = length (items s)"
proof -
  have ne: "int k \<noteq> - 1" by simp
  from findIndex_found [of "\<lambda>it. id' it = generateCartItemId lc (productId a) (variationId a) (attributes a)" "items s"] idx
  have k: "k < length (items s)" by simp
  show ?thesis
    using addItem_present [OF idx ne] k lim exceed by (simp add: clamp_to_exceeds)
qed

text \<open>The claim as written fails for \<open>m = 0\<close>: the store reads a \<^verbatim>\<open>maxQuantity\<close> of
  \<^verbatim>\<open>0\<close> as "no limit", so two adds of quantity 1 leave quantity 2, not 0.\<close>

theorem addItem_clamp_law_counterexample:
  "map quantity (items (addItem codeUnitCompare (shirt 1 (Some 0)) (addItem codeUnitCompare (shirt 1 (Some 0)) initial))) = [2]
   \<and> map maxQuantity (items (addItem codeUnitCompare (shirt 1 (Some 0)) (addItem codeUnitCompare (shirt 1 (Some 0)) initial))) = [Some 0]"
  by (simp add: addItem_def initial_def shirt_def generateCartItemId_def String_of_def digits.simps digit_def truthy_def with_id_def clamp_to_def)

text \<open>A line at its limit of 2 stays at 2 when one more is added.\<close>

theorem addItem_clamp_law_witness:
  "quantity (items (addItem codeUnitCompare (shirt 1 (Some 2)) (addItem codeUnitCompare (shirt 2 (Some 2)) initial)) ! 0) = 2
   \<and> length (items (addItem codeUnitCompare (shirt 1 (Some 2)) (addItem codeUnitCompare (shirt 2 (Some 2)) initial))) = 1"
proof -
  have s1: "items (addItem codeUnitCompare (shirt 2 (Some 2)) initial) = [with_id (shirt 2 (Some 2)) ''10'']"
    by (simp add: addItem_def initial_def shirt_def generateCartItemId_def String_of_def digits.simps digit_def truthy_def)
  have i: "generateCartItemId codeUnitCompare (productId (shirt 1 (Some 2))) (variationId (shirt 1 (Some 2))) (attributes (shirt 1 (Some 2))) = ''10''"
    by (simp add: shirt_def generateCartItemId_def String_of_def digits.simps digit_def truthy_def)
  show ?thesis
    using addItem_clamp_law [of codeUnitCompare "shirt 1 (Some 2)" "addItem codeUnitCompare (shirt 2 (Some 2)) initial" 0 2]
    unfolding i s1 by (simp add: with_id_def shirt_def)
qed

text \<open>The branch of \<^verbatim>\<open>addItem\<close> that appends a new line stores the candidate's quantity
  as it comes, also above the candidate's \<^verbatim>\<open>maxQuantity\<close>.\<close>

lemma addItem_new_line_keeps_quantity:
  "map quantity (items (addItem codeUnitCompare (shirt 5 (Some 2)) initial)) = [5]
   \<and> map maxQuantity (items (addItem codeUnitCompare (shirt 5 (Some 2)) initial)) = [Some 2]"
  by (simp add: addItem_def initial_def shirt_def generateCartItemId_def String_of_def digits.simps
      digit_def with_id_def)

lemma within_stock_with_id: "within_stock (with_id a i) = within_stock a"
  by (simp add: within_stock_def with_id_def split: option.splits)

lemma within_stock_clamp: "within_stock (it\<lparr>quantity := clamp_to (maxQuantity it) q\<rparr>)"
  by (simp add: within_stock_def clamp_to_def truthy_def split: option.splits)

lemma ball_list_update:
  assumes "\<forall>x \<in> set xs. P x" "P v"
  shows "\<forall>y \<in> set (xs[k := v]). P y"
proof
  fix y assume "y \<in> set (xs[k := v])"
  then have "y \<in> insert v (set xs)" using set_update_subset_insert [of xs k v] by blast
  with assms show "P y" by blast
qed

lemma ball_map_if:
  assumes "\<forall>x \<in> set xs. P x" "\<And>x. P (g x)"
  shows "\<forall>y \<in> set (map (\<lambda>x. if c x then x else g x) xs). P y"
  using assms by (induction xs) simp_all

lemma addItem_within_stock:
  assumes inv: "\<forall>it \<in> set (items s). within_stock it" and ok: "within_stock a"
  shows "\<forall>it \<in> set (items (addItem lc a s)). within_stock it"
proof (cases "findIndex (\<lambda>it. id' it = generateCartItemId lc (productId a) (variationId a) (attributes a)) (items s) = - 1")
  case True
  then have "\<forall>it \<in> set (items s). id' it \<noteq> generateCartItemId lc (productId a) (variationId a) (attributes a)"
    by (simp add: findIndex_absent)
  from addItem_absent [OF this] show ?thesis using inv ok by (simp add: within_stock_with_id)
next
  case False
  let ?k = "nat (findIndex (\<lambda>it. id' it = generateCartItemId lc (productId a) (variationId a) (attributes a)) (items s))"
  let ?new = "(items s ! ?k)\<lparr>quantity := clamp_to (maxQuantity (items s ! ?k)) (quantity (items s ! ?k) + quantity a)\<rparr>"
  have eq: "items (addItem lc a s) = (items s)[?k := ?new]"
    using addItem_present [OF refl False] by simp
  have "within_stock ?new" by (rule within_stock_clamp)
  with inv show ?thesis unfolding eq by (rule ball_list_update)
qed

lemma removeItem_within_stock:
  "\<forall>it \<in> set (items s). within_stock it \<Longrightarrow> \<forall>it \<in> set (items (removeItem i s)). within_stock it"
  by (simp add: removeItem_def)

lemma updateQuantity_items:
  "0 < q \<Longrightarrow> items (updateQuantity i q s) =
     map (\<lambda>item. if id' item \<noteq> i then item else item\<lparr>quantity := clamp_to (maxQuantity item) q\<rparr>) (items s)"
  by (simp add: updateQuantity_def Let_def)

lemma updateQuantity_within_stock:
  assumes "\<forall>it \<in> set (items s). within_stock it"
  shows "\<forall>it \<in> set (items (updateQuantity i q s)). within_stock it"
proof (cases "q \<le> 0")
  case True
  then show ?thesis using assms by (simp add: updateQuantity_def)
next
  case False
  then have q: "0 < q" by simp
  show ?thesis unfolding updateQuantity_items [OF q]
    using assms by (rule ball_map_if) (rule within_stock_clamp)
qed

lemma apply_action_within_stock:
  assumes "\<forall>it \<in> set (items s). within_stock it" "admissible act"
  shows "\<forall>it \<in> set (items (apply_action lc s act)). within_stock it"
proof (cases act)
  case (AddItem a)
  with assms show ?thesis by (simp add: addItem_within_stock)
next
  case (RemoveItem i)
  with assms show ?thesis by (simp add: removeItem_within_stock)
next
  case (UpdateQuantity i q)
  with assms show ?thesis by (simp add: updateQuantity_within_stock)
next
  case ClearCart
  then show ?thesis by (simp add: clearCart_def)
qed

lemma foldl_within_stock:
  "\<forall>it \<in> set (items s). within_stock it \<Longrightarrow> \<forall>act \<in> set acts. admissible act
   \<Longrightarrow> \<forall>it \<in> set (items (foldl (apply_action lc) s acts)). within_stock it"
proof (induction acts arbitrary: s)
  case Nil
  then show ?case by simp
next
  case (Cons act acts)
  have "\<forall>it \<in> set (items (apply_action lc s act)). within_stock it"
    by (rule apply_action_within_stock) (use Cons.prems in simp_all)
  then show ?case using Cons.IH Cons.prems(2) by simp
qed

lemma ball_map_if_changed:
  assumes "\<And>x. P (g x)"
  shows "\<forall>y \<in> set (map (\<lambda>x. if c x then x else g x) xs). \<not> c y \<longrightarrow> P y"
  by (induction xs) (simp_all add: assms)

lemma updateQuantity_clamps:
  assumes q: "0 < q"
  shows "\<forall>it \<in> set (items (updateQuantity i q s)). id' it = i \<longrightarrow> within_stock it"
  unfolding updateQuantity_items [OF q]
  using ball_map_if_changed [of within_stock "\<lambda>item. item\<lparr>quantity := clamp_to (maxQuantity item) q\<rparr>" "\<lambda>item. id' item \<noteq> i" "items s", OF within_stock_clamp]
  by simp

text \<open>
  Claim C5, as amended (stock ceiling). In every cart state reached from the empty cart
  by \<^verbatim>\<open>addItem\<close>, \<^verbatim>\<open>removeItem\<close>, \<^verbatim>\<open>updateQuantity\<close> and \<^verbatim>\<open>clearCart\<close>, where every
  \<^verbatim>\<open>addItem\<close> candidate respects its own stock limit, every item whose \<^verbatim>\<open>maxQuantity\<close>
  is defined and not \<^verbatim>\<open>0\<close> satisfies \<^verbatim>\<open>quantity \<le> maxQuantity\<close>. An excess request is
  clamped, never rejected, whatever the state before: an \<^verbatim>\<open>addItem\<close> that finds its id at
  row \<open>k\<close> keeps every row and leaves row \<open>k\<close> within its limit, and an
  \<^verbatim>\<open>updateQuantity\<close> with \<open>q > 0\<close> keeps every row and leaves the rows with the id within
  their limit.
\<close>

theorem stock_ceiling_invariant:
  assumes "\<forall>act \<in> set acts. admissible act"
  shows "(\<forall>it \<in> set (items (run lc acts)). within_stock it)
         \<and> (findIndex (\<lambda>it. id' it = generateCartItemId lc (productId a) (variationId a) (attributes a)) (items s) = int k
              \<longrightarrow> length (items (addItem lc a s)) = length (items s)
                \<and> within_stock (items (addItem lc a s) ! k)
                \<and> quantity (items (addItem lc a s) ! k) =
                    (case maxQuantity (items s ! k) of
                       None \<Rightarrow> quantity (items s ! k) + quantity a
                     | Some m \<Rightarrow> if m = 0 then quantity (items s ! k) + quantity a
                                else if m < quantity (items s ! k) + quantity a then m
                                else quantity (items s ! k) + quantity a))
         \<and> (0 < q \<longrightarrow> length (items (updateQuantity i q s)) = length (items s)
               \<and> (\<forall>it \<in> set (items (updateQuantity i q s)). id' it = i \<longrightarrow> within_stock it)
               \<and> items (updateQuantity i q s) =
                   map (\<lambda>it. if id' it = i
                             then it\<lparr>quantity := (case maxQuantity it of
                                                     None \<Rightarrow> q
                                                   | Some m \<Rightarrow> if m = 0 then q else if m < q then m else q)\<rparr>
                             else it) (items s))"
proof -
  have exact: "clamp_to mq n = (case mq of None \<Rightarrow> n | Some m \<Rightarrow> if m = 0 then n else if m < n then m else n)"
    for mq n
    by (simp add: clamp_to_def truthy_def min_def split: option.splits)
  have "\<forall>it \<in> set (items (run lc acts)). within_stock it"
    unfolding run_def using assms by (intro foldl_within_stock) (simp_all add: initial_def)
  moreover have "length (items (addItem lc a s)) = length (items s)
      \<and> within_stock (items (addItem lc a s) ! k)
      \<and> quantity (items (addItem lc a s) ! k) =
          (case maxQuantity (items s ! k) of
             None \<Rightarrow> quantity (items s ! k) + quantity a
           | Some m \<Rightarrow> if m = 0 then quantity (items s ! k) + quantity a
                      else if m < quantity (items s ! k) + quantity a then m
                      else quantity (items s ! k) + quantity a)"
    if idx: "findIndex (\<lambda>it. id' it = generateCartItemId lc (productId a) (variationId a) (attributes a)) (items s) = int k"
  proof -
    have ne: "int k \<noteq> - 1" by simp
    from findIndex_found [of "\<lambda>it. id' it = generateCartItemId lc (productId a) (variationId a) (attributes a)" "items s"] idx
    have k: "k < length (items s)" by simp
    have q: "quantity (items (addItem lc a s) ! k) = clamp_to (maxQuantity (items s ! k)) (quantity (items s ! k) + quantity a)"
      using addItem_present [OF idx ne] k by simp
    have "length (items (addItem lc a s)) = length (items s) \<and> within_stock (items (addItem lc a s) ! k)"
      using addItem_present [OF idx ne] k by (simp add: within_stock_clamp)
    then show ?thesis unfolding q exact by simp
  qed
  moreover have "length (items (updateQuantity i q s)) = length (items s)
      \<and> items (updateQuantity i q s) =
          map (\<lambda>it. if id' it = i
                    then it\<lparr>quantity := (case maxQuantity it of
                                            None \<Rightarrow> q
                                          | Some m \<Rightarrow> if m = 0 then q else if m < q then m else q)\<rparr>
                    else it) (items s)"
    if q: "0 < q"
    unfolding updateQuantity_items [OF q] exact by (simp cong: if_cong)
  ultimately show ?thesis using updateQuantity_clamps [of q i s] by blast
qed

text \<open>The claim as written fails for a \<^verbatim>\<open>maxQuantity\<close> of \<^verbatim>\<open>0\<close>, which is defined but
  read as "no limit": \<^verbatim>\<open>updateQuantity\<close> to 3 stores 3.\<close>

theorem stock_ceiling_counterexample:
  "map quantity (items (run codeUnitCompare [AddItem (shirt 1 (Some 0)), UpdateQuantity ''10'' 3])) = [3]
   \<and> map maxQuantity (items (run codeUnitCompare [AddItem (shirt 1 (Some 0)), UpdateQuantity ''10'' 3])) = [Some 0]
   \<and> \<not> list_all stock_ceiling (items (run codeUnitCompare [AddItem (shirt 1 (Some 0)), UpdateQuantity ''10'' 3]))"
  by (simp add: run_def addItem_def updateQuantity_def initial_def shirt_def generateCartItemId_def
      String_of_def digits.simps digit_def truthy_def with_id_def clamp_to_def stock_ceiling_def)

text \<open>Two adds of 2 under a limit of 3, then an update to 7: the line holds 3.\<close>

theorem stock_ceiling_invariant_witness:
  "list_all within_stock (items (run codeUnitCompare [AddItem (shirt 2 (Some 3)), AddItem (shirt 2 (Some 3)), UpdateQuantity ''10'' 7]))
   \<and> map quantity (items (run codeUnitCompare [AddItem (shirt 2 (Some 3)), AddItem (shirt 2 (Some 3)), UpdateQuantity ''10'' 7])) = [3]"
proof -
  have adm: "\<forall>act \<in> set [AddItem (shirt 2 (Some 3)), AddItem (shirt 2 (Some 3)), UpdateQuantity ''10'' 7]. admissible act"
    by (simp add: within_stock_def shirt_def)
  have q: "map quantity (items (run codeUnitCompare [AddItem (shirt 2 (Some 3)), AddItem (shirt 2 (Some 3)), UpdateQuantity ''10'' 7])) = [3]"
    by (simp add: run_def addItem_def updateQuantity_def initial_def shirt_def generateCartItemId_def String_of_def digits.simps digit_def truthy_def with_id_def clamp_to_def)
  show ?thesis
    using stock_ceiling_invariant [where lc = codeUnitCompare, OF adm] q
    by (simp add: list_all_iff)
qed

subsection \<open>Persistence\<close>

text \<open>The snapshot holds the items and nothing of \<^verbatim>\<open>isOpen\<close>.\<close>

lemma partialize_scope:
  "persisted_items (partialize s) = items s \<and> partialize (s\<lparr>isOpen := b\<rparr>) = partialize s"
  by (simp add: partialize_def)

text \<open>Whatever the slot holds, the store starts with the empty cart.\<close>

lemma create_empty: "items (state (create slot)) = []"
  by (simp add: create_configResult configResult_def initial_def)

text \<open>
  Claim C9 (persistence scope and round trip), evaluated on the store. The claim asks
  that the snapshot hold exactly the items, without \<^verbatim>\<open>isOpen\<close>, and that the item list
  that is serialised come back identical. After a jacket is added, the slot holds
  exactly the one item of the cart; a page load that finds this slot starts with no
  item.
\<close>

theorem persisted_items_lost_on_reload:
  "setItem (store_run codeUnitCompare None [AddItem (jacket 2)]) = Some \<lparr>persisted_items = [with_id (jacket 2) ''10'']\<rparr>
   \<and> items (state (store_run codeUnitCompare None [AddItem (jacket 2)])) = [with_id (jacket 2) ''10'']
   \<and> items (state (create (setItem (store_run codeUnitCompare None [AddItem (jacket 2)])))) = []"
proof -
  have s1: "items (run codeUnitCompare [AddItem (jacket 2)]) = [with_id (jacket 2) ''10'']"
    by (simp add: run_def addItem_def initial_def jacket_def generateCartItemId_def String_of_def
        digits.simps digit_def)
  show ?thesis
    by (simp add: setItem_def partialize_def state_store_run s1 create_configResult configResult_def
        initial_def)
qed

end
